theory Spec2Isabelle
  imports Main
begin

section \<open>Python values, dictionaries and exceptions\<close>

text \<open>
  The values that travel between the bot, \<open>dbhandler.py\<close> and the database driver:
  \<open>None\<close>, booleans, integers, strings, lists and dicts. A dict keeps its entries in
  insertion order, so it is an association list; its keys are compared with Python's
  \<open>==\<close>, under which \<open>True == 1\<close> and \<open>False == 0\<close>.
\<close>

datatype pyval =
    PNone
  | PBool bool
  | PInt int
  | PStr string
  | PList "pyval list"
  | PDict "(pyval \<times> pyval) list"

type_synonym pydict = "(pyval \<times> pyval) list"

type_synonym row = "pyval list"

datatype error =
    IndexError
  | TypeError
  | ProgrammingError
  | DatabaseError string

fun hashable :: "pyval \<Rightarrow> bool" where
  "hashable (PList xs) = False"
| "hashable (PDict d) = False"
| "hashable v = True"

fun isinstance_dict :: "pyval \<Rightarrow> bool" where
  "isinstance_dict (PDict d) = True"
| "isinstance_dict v = False"

fun key_norm :: "pyval \<Rightarrow> pyval" where
  "key_norm (PBool b) = PInt (if b then 1 else 0)"
| "key_norm v = v"

definition key_eq :: "pyval \<Rightarrow> pyval \<Rightarrow> bool" where
  "key_eq a b = (key_norm a = key_norm b)"

text \<open>\<open>d[k] = v\<close>: an existing key keeps its place (and its key object), a new one is appended.\<close>

fun setitem :: "pydict \<Rightarrow> pyval \<Rightarrow> pyval \<Rightarrow> pydict" where
  "setitem [] k v = [(k, v)]"
| "setitem ((k', v') # d) k v =
     (if key_eq k' k then (k', v) # d else (k', v') # setitem d k v)"

text \<open>\<open>d.get(k)\<close>, with \<open>None\<close> for a missing key.\<close>

fun getitem :: "pydict \<Rightarrow> pyval \<Rightarrow> pyval option" where
  "getitem [] k = None"
| "getitem ((k', v') # d) k = (if key_eq k' k then Some v' else getitem d k)"

definition keys :: "pydict \<Rightarrow> pyval list" where
  "keys d = map fst d"

definition dict_values :: "pydict \<Rightarrow> pyval list" where
  "dict_values d = map snd d"

section \<open>Module-level helpers\<close>

text \<open>
  \<^verbatim>\<open>
  def dictify(data, fields):
      formatted_data = {}
      for i, key in enumerate(fields):
              formatted_data[key] = data[i]
      return formatted_data
  \<close>
  \<open>data[i]\<close> raises IndexError when \<open>fields\<close> is longer than \<open>data\<close>; storing under an
  unhashable key raises TypeError. The right-hand side is evaluated first.
\<close>

fun dictify_loop :: "row \<Rightarrow> nat \<Rightarrow> pyval list \<Rightarrow> pydict \<Rightarrow> error + pydict" where
  "dictify_loop data i [] formatted_data = Inr formatted_data"
| "dictify_loop data i (key # rest) formatted_data =
     (if i < length data then
        (if hashable key
         then dictify_loop data (Suc i) rest (setitem formatted_data key (data ! i))
         else Inl TypeError)
      else Inl IndexError)"

definition dictify :: "row \<Rightarrow> pyval list \<Rightarrow> error + pydict" where
  "dictify data field_names = dictify_loop data 0 field_names []"

text \<open>
  \<^verbatim>\<open>
  def get_check(field_name: str, case_sensitive):
      return f"WHERE {field_name} = %s" if case_sensitive
             else f"WHERE LOWER({field_name}) = LOWER(%s)"
  \<close>
\<close>

definition get_check :: "string \<Rightarrow> bool \<Rightarrow> string" where
  "get_check field_name case_sensitive =
     (if case_sensitive then ''WHERE '' @ field_name @ '' = %s''
      else ''WHERE LOWER('' @ field_name @ '') = LOWER(%s)'')"

section \<open>The connection and its cursor\<close>

text \<open>
  psycopg2 and the database behind it are not part of the repository: they are a
  parameter. A driver answers a statement, given everything sent on the connection so
  far, with an exception or with the cursor's new result set (\<open>None\<close> for a statement
  that returns no rows), and it answers a commit with an exception or nothing. After a
  statement that raised, the cursor holds no result set.
\<close>

datatype event =
    Execute string "pyval list option"
  | Commit

record driver =
  run_statement :: "event list \<Rightarrow> string \<Rightarrow> pyval list option \<Rightarrow> error + row list option"
  run_commit :: "event list \<Rightarrow> error option"

text \<open>
  The state a call works on: the calls made on the connection so far, the rows waiting
  on the one shared cursor, and the dict objects that callers hand over by reference.
\<close>

record world =
  calls :: "event list"
  pending :: "row list option"
  objs :: "nat \<Rightarrow> pydict"

definition cursor_execute ::
  "driver \<Rightarrow> string \<Rightarrow> pyval list option \<Rightarrow> world \<Rightarrow> (error + unit) \<times> world" where
  "cursor_execute drv sql params w =
     (case run_statement drv (calls w) sql params of
        Inl e \<Rightarrow> (Inl e, w\<lparr>calls := calls w @ [Execute sql params], pending := None\<rparr>)
      | Inr res \<Rightarrow> (Inr (), w\<lparr>calls := calls w @ [Execute sql params], pending := res\<rparr>))"

text \<open>\<open>fetchall\<close> hands over the waiting rows and leaves none; with no result set it raises.\<close>

definition cursor_fetchall :: "world \<Rightarrow> (error + row list) \<times> world" where
  "cursor_fetchall w =
     (case pending w of
        None \<Rightarrow> (Inl ProgrammingError, w)
      | Some rows \<Rightarrow> (Inr rows, w\<lparr>pending := Some []\<rparr>))"

definition conn_commit :: "driver \<Rightarrow> world \<Rightarrow> (error + unit) \<times> world" where
  "conn_commit drv w =
     (case run_commit drv (calls w) of
        Some e \<Rightarrow> (Inl e, w\<lparr>calls := calls w @ [Commit]\<rparr>)
      | None \<Rightarrow> (Inr (), w\<lparr>calls := calls w @ [Commit]\<rparr>))"

section \<open>DBHandler\<close>

definition indent :: string where
  "indent = ''                ''"

definition newline :: string where
  "newline = [CHR 0x0A]"

subsection \<open>\<open>_get_table_fields\<close>\<close>

definition table_fields_sql :: "string \<Rightarrow> string" where
  "table_fields_sql table_name =
     newline @ indent @ ''SELECT column_name FROM information_schema.columns''
     @ newline @ indent @ ''WHERE table_name='' @ [CHR 0x27] @ table_name @ [CHR 0x27]"

text \<open>\<open>[field[0] for field in self.cursor.fetchall()]\<close>\<close>

fun first_columns :: "row list \<Rightarrow> error + pyval list" where
  "first_columns [] = Inr []"
| "first_columns (field # rest) =
     (case field of
        [] \<Rightarrow> Inl IndexError
      | x # xs \<Rightarrow> (case first_columns rest of Inl e \<Rightarrow> Inl e | Inr field_names \<Rightarrow> Inr (x # field_names)))"

definition get_table_fields :: "driver \<Rightarrow> string \<Rightarrow> world \<Rightarrow> (error + pyval list) \<times> world" where
  "get_table_fields drv table_name w =
     (case cursor_execute drv (table_fields_sql table_name) None w of
        (Inl e, w1) \<Rightarrow> (Inl e, w1)
      | (Inr u, w1) \<Rightarrow>
          (case cursor_fetchall w1 of
             (Inl e, w2) \<Rightarrow> (Inl e, w2)
           | (Inr rows, w2) \<Rightarrow>
               (case first_columns rows of
                  Inl e \<Rightarrow> (Inl e, w2)
                | Inr field_names \<Rightarrow>
                    (Inr (if PStr ''server_id'' \<in> set field_names then drop 1 field_names else field_names), w2))))"

subsection \<open>\<open>_format_sql_data\<close>\<close>

text \<open>\<open>[dictify(entry[1:], fields) for entry in data]\<close>\<close>

fun dictify_entries :: "row list \<Rightarrow> pyval list \<Rightarrow> error + pydict list" where
  "dictify_entries [] field_names = Inr []"
| "dictify_entries (entry # rest) field_names =
     (case dictify (drop 1 entry) field_names of
        Inl e \<Rightarrow> Inl e
      | Inr d \<Rightarrow> (case dictify_entries rest field_names of Inl e \<Rightarrow> Inl e | Inr ds \<Rightarrow> Inr (d # ds)))"

definition format_sql_data :: "driver \<Rightarrow> string \<Rightarrow> world \<Rightarrow> (error + pydict list) \<times> world" where
  "format_sql_data drv table_name w =
     (case cursor_fetchall w of
        (Inl e, w1) \<Rightarrow> (Inl e, w1)
      | (Inr data, w1) \<Rightarrow>
          (case get_table_fields drv table_name w1 of
             (Inl e, w2) \<Rightarrow> (Inl e, w2)
           | (Inr field_names, w2) \<Rightarrow>
               (if data = [] then (Inr [], w2)
                else if length data > 1 then (dictify_entries data field_names, w2)
                else (case dictify (drop 1 (data ! 0)) field_names of
                        Inl e \<Rightarrow> (Inl e, w2)
                      | Inr d \<Rightarrow> (Inr [d], w2)))))"

subsection \<open>\<open>_search\<close>\<close>

definition search_sql :: "string \<Rightarrow> string \<Rightarrow> string \<Rightarrow> string" where
  "search_sql table_name check extra_query =
     newline @ indent @ ''SELECT * FROM '' @ table_name
     @ newline @ indent @ check @ '' '' @ extra_query
     @ newline @ indent"

text \<open>\<open>_search\<close> returns the list of result dicts, or one dict of it.\<close>

datatype found = Rows "pydict list" | Row pydict

definition search ::
  "driver \<Rightarrow> string \<Rightarrow> string \<Rightarrow> pyval \<Rightarrow> bool \<Rightarrow> string \<Rightarrow> bool \<Rightarrow> world
     \<Rightarrow> (error + found) \<times> world" where
  "search drv table_name field_name val case_sensitive extra_query all_results w =
     (case cursor_execute drv (search_sql table_name (get_check field_name case_sensitive) extra_query)
             (Some [val]) w of
        (Inl e, w1) \<Rightarrow> (Inl e, w1)
      | (Inr u, w1) \<Rightarrow>
          (case format_sql_data drv table_name w1 of
             (Inl e, w2) \<Rightarrow> (Inl e, w2)
           | (Inr results, w2) \<Rightarrow>
               (if results \<noteq> [] then
                  (if all_results then (Inr (Rows results), w2)
                   else (Inr (Row (results ! 0)), w2))
                else (Inr (Rows results), w2))))"

subsection \<open>\<open>_update_many\<close> and \<open>_update\<close>\<close>

text \<open>
  \<open>sep.join(items)\<close> raises TypeError unless every item is a string.
\<close>

fun str_items :: "pyval list \<Rightarrow> error + string list" where
  "str_items [] = Inr []"
| "str_items (PStr s # rest) =
     (case str_items rest of Inl e \<Rightarrow> Inl e | Inr ss \<Rightarrow> Inr (s # ss))"
| "str_items (v # rest) = Inl TypeError"

fun intercalate :: "string \<Rightarrow> string list \<Rightarrow> string" where
  "intercalate sep [] = []"
| "intercalate sep [s] = s"
| "intercalate sep (s # t # rest) = s @ sep @ intercalate sep (t # rest)"

definition join :: "string \<Rightarrow> pyval list \<Rightarrow> error + string" where
  "join sep items =
     (case str_items items of Inl e \<Rightarrow> Inl e | Inr ss \<Rightarrow> Inr (intercalate sep ss))"

definition update_sql :: "string \<Rightarrow> string \<Rightarrow> string \<Rightarrow> string \<Rightarrow> string" where
  "update_sql table_name update_string check extra_query =
     newline @ indent @ ''UPDATE '' @ table_name
     @ newline @ indent @ update_string
     @ newline @ indent @ check @ '' '' @ extra_query
     @ newline @ indent"

definition update_many ::
  "driver \<Rightarrow> string \<Rightarrow> string \<Rightarrow> pyval \<Rightarrow> pydict \<Rightarrow> bool \<Rightarrow> string \<Rightarrow> world
     \<Rightarrow> (error + unit) \<times> world" where
  "update_many drv table_name check_field check_value updates case_sensitive extra_query w =
     (let check = get_check check_field case_sensitive;
          update_fields = keys updates;
          update_values = dict_values updates
      in case join '' AND '' update_fields of
           Inl e \<Rightarrow> (Inl e, w)
         | Inr update_string \<Rightarrow>
             (case cursor_execute drv (update_sql table_name update_string check extra_query)
                     (Some (update_values @ [check_value])) w of
                (Inl e, w1) \<Rightarrow> (Inl e, w1)
              | (Inr u, w1) \<Rightarrow> conn_commit drv w1))"

definition update ::
  "driver \<Rightarrow> string \<Rightarrow> string \<Rightarrow> pyval \<Rightarrow> string \<Rightarrow> pyval \<Rightarrow> bool \<Rightarrow> string \<Rightarrow> world
     \<Rightarrow> (error + unit) \<times> world" where
  "update drv table_name check_field check_value update_field update_value case_sensitive
       extra_query w =
     update_many drv table_name check_field check_value [(PStr update_field, update_value)]
       case_sensitive extra_query w"

subsection \<open>\<open>_add\<close>\<close>

text \<open>
  \<open>s.replace(old, new)\<close>: the occurrences of \<open>old\<close> are found from the left and do not
  overlap; an empty \<open>old\<close> matches before every character and at the end.
\<close>

function str_replace :: "string \<Rightarrow> string \<Rightarrow> string \<Rightarrow> string" where
  "str_replace s old new =
     (if old = [] then new @ concat (map (\<lambda>c. c # new) s)
      else if s = [] then []
      else if take (length old) s = old then new @ str_replace (drop (length old) s) old new
      else hd s # str_replace (tl s) old new)"
  by pat_completeness auto
termination
  by (relation "measure (\<lambda>(s, old, new). length s)") auto

declare str_replace.simps [simp del]

text \<open>\<open>def parenthesise(items): return f"({', '.join(items)})"\<close>\<close>

definition parenthesise :: "pyval list \<Rightarrow> error + string" where
  "parenthesise items =
     (case join '', '' items of Inl e \<Rightarrow> Inl e | Inr s \<Rightarrow> Inr (''('' @ s @ '')''))"

text \<open>
  The loop of \<open>_add\<close> that collects the values to bind. Python's built-in \<open>str\<close> is the
  parameter \<open>str_of\<close>.
\<close>

fun add_values :: "(pyval \<Rightarrow> string) \<Rightarrow> pydict \<Rightarrow> pyval list" where
  "add_values str_of [] = []"
| "add_values str_of ((key, val) # rest) =
     (if isinstance_dict val
      then PStr (str_replace (str_of val) [CHR 0x27] [CHR 0x22]) # add_values str_of rest
      else val # add_values str_of rest)"

definition insert_sql :: "string \<Rightarrow> string \<Rightarrow> string \<Rightarrow> string" where
  "insert_sql table_name formatted_fields value_blanks =
     ''INSERT INTO '' @ table_name @ '' '' @ formatted_fields @ '' VALUES '' @ value_blanks"

text \<open>
  \<open>given_values\<close> is a reference to the caller's dict: the first statement of \<open>_add\<close>
  writes to that object.
\<close>

definition add ::
  "(pyval \<Rightarrow> string) \<Rightarrow> driver \<Rightarrow> string \<Rightarrow> int \<Rightarrow> nat \<Rightarrow> world \<Rightarrow> (error + unit) \<times> world" where
  "add str_of drv table_name guild_id given_values w =
     (let w0 = w\<lparr>objs := (objs w)(given_values :=
                   setitem (objs w given_values) (PStr ''server_id'') (PInt guild_id))\<rparr>;
          vals = add_values str_of (objs w0 given_values)
      in case parenthesise (keys (objs w0 given_values)) of
           Inl e \<Rightarrow> (Inl e, w0)
         | Inr formatted_fields \<Rightarrow>
             (case parenthesise (map (\<lambda>key. PStr ''%s'') vals) of
                Inl e \<Rightarrow> (Inl e, w0)
              | Inr value_blanks \<Rightarrow>
                  (case cursor_execute drv (insert_sql table_name formatted_fields value_blanks)
                          (Some vals) w0 of
                     (Inl e, w1) \<Rightarrow> (Inl e, w1)
                   | (Inr u, w1) \<Rightarrow> conn_commit drv w1)))"

section \<open>Python's \<open>str\<close> on the modelled values\<close>

text \<open>
  \<open>str\<close> of a string is the string; \<open>str\<close> of any other value is its \<open>repr\<close>. The
  \<open>repr\<close> of a string is in single quotes, unless the string has a single quote and no
  double quote; backslash, the quote in use and control characters are escaped. Characters
  are bytes here: a byte from 0x80 on stands for part of a printable character and is kept.
\<close>

fun nat_digits :: "nat \<Rightarrow> string" where
  "nat_digits n =
     (if n < 10 then [''0123456789'' ! n]
      else nat_digits (n div 10) @ [''0123456789'' ! (n mod 10)])"

declare nat_digits.simps [simp del]

definition hex2 :: "nat \<Rightarrow> string" where
  "hex2 n = [''0123456789abcdef'' ! (n div 16), ''0123456789abcdef'' ! (n mod 16)]"

definition escape_char :: "char \<Rightarrow> char \<Rightarrow> string" where
  "escape_char quote c =
     (if c = CHR 0x5C then [CHR 0x5C, CHR 0x5C]
      else if c = quote then [CHR 0x5C, quote]
      else if c = CHR 0x0A then [CHR 0x5C, CHR ''n'']
      else if c = CHR 0x0D then [CHR 0x5C, CHR ''r'']
      else if c = CHR 0x09 then [CHR 0x5C, CHR ''t'']
      else if (of_char c :: nat) < 32 \<or> (of_char c :: nat) = 127
        then [CHR 0x5C, CHR ''x''] @ hex2 (of_char c)
      else [c])"

definition str_repr :: "string \<Rightarrow> string" where
  "str_repr s =
     (let quote = (if CHR 0x27 \<in> set s \<and> CHR 0x22 \<notin> set s then CHR 0x22 else CHR 0x27)
      in [quote] @ concat (map (escape_char quote) s) @ [quote])"

function py_repr :: "pyval \<Rightarrow> string"
  and repr_items :: "pyval list \<Rightarrow> string"
  and repr_entries :: "(pyval \<times> pyval) list \<Rightarrow> string" where
  "py_repr PNone = ''None''"
| "py_repr (PBool b) = (if b then ''True'' else ''False'')"
| "py_repr (PInt n) = (if n < 0 then ''-'' @ nat_digits (nat (- n)) else nat_digits (nat n))"
| "py_repr (PStr s) = str_repr s"
| "py_repr (PList xs) = ''['' @ repr_items xs @ '']''"
| "py_repr (PDict d) = ''{'' @ repr_entries d @ ''}''"
| "repr_items [] = []"
| "repr_items [x] = py_repr x"
| "repr_items (x # y # rest) = py_repr x @ '', '' @ repr_items (y # rest)"
| "repr_entries [] = []"
| "repr_entries [(k, v)] = py_repr k @ '': '' @ py_repr v"
| "repr_entries ((k, v) # e # rest) =
     py_repr k @ '': '' @ py_repr v @ '', '' @ repr_entries (e # rest)"
  by pat_completeness auto
termination
  by (relation "measure (case_sum size (case_sum (size_list size) (size_list (size_prod size size))))")
     auto

fun py_str :: "pyval \<Rightarrow> string" where
  "py_str (PStr s) = s"
| "py_str v = py_repr v"

section \<open>An example database\<close>

text \<open>
  A driver for a database with a table \<open>teams\<close> (an identifier column, then \<open>server_id\<close>)
  and a table \<open>notes\<close> with an identifier column and no \<open>server_id\<close> column.
\<close>

definition teams_catalog :: "row list" where
  "teams_catalog = [[PStr ''id''], [PStr ''server_id''], [PStr ''team_name''], [PStr ''channels'']]"

definition notes_catalog :: "row list" where
  "notes_catalog = [[PStr ''id''], [PStr ''body'']]"

definition teams_rows :: "row list" where
  "teams_rows =
     [[PInt 1, PInt 7, PStr ''alpha'', PList [PInt 11]],
      [PInt 2, PInt 7, PStr ''beta'', PList []]]"

definition example_driver :: driver where
  "example_driver =
     \<lparr>run_statement = (\<lambda>history sql params.
        if sql = table_fields_sql ''teams'' then Inr (Some teams_catalog)
        else if sql = table_fields_sql ''notes'' then Inr (Some notes_catalog)
        else if sql = search_sql ''teams'' (get_check ''server_id'' True) []
          then (if params = Some [PInt 7] then Inr (Some teams_rows) else Inr (Some []))
        else if sql = search_sql ''teams'' (get_check ''team_name'' False) ''AND server_id = 7''
          then (if params = Some [PStr ''Alpha''] \<or> params = Some [PStr ''alpha'']
                then Inr (Some (take 1 teams_rows)) else Inr (Some []))
        else Inr None),
      run_commit = (\<lambda>history. None)\<rparr>"

definition example_world :: world where
  "example_world =
     \<lparr>calls = [], pending = None,
      objs = (\<lambda>ref. if ref = 0
                then [(PStr ''name'', PStr ''ann''),
                      (PStr ''availability'', PDict [(PStr ''Monday'', PStr ''Yes'')])]
                else [])\<rparr>"

section \<open>The specification's wording of \<open>getTableFields\<close>\<close>

text \<open>
  The specification: "if the list's first entry is the synthetic leading identifier field,
  drops it". This is that sentence as a function of the identifier field's name and the
  catalog-order list, to be compared with \<open>get_table_fields\<close>.
\<close>

definition specified_table_fields :: "pyval \<Rightarrow> pyval list \<Rightarrow> pyval list" where
  "specified_table_fields ident cols =
     (case cols of [] \<Rightarrow> [] | c # rest \<Rightarrow> if c = ident then rest else cols)"

section \<open>Facts about dictionaries and the helpers\<close>

lemma getitem_setitem: "getitem (setitem d k v) k = Some v"
  by (induction d) (auto simp: key_eq_def)

lemma keys_setitem_cases:
  "keys (setitem d k v) = (if \<exists>k' \<in> set (keys d). key_eq k' k then keys d else keys d @ [k])"
  by (induction d) (force simp: keys_def)+

lemma keys_setitem: "set (keys (setitem d k v)) \<subseteq> insert k (set (keys d))"
  by (auto simp: keys_setitem_cases)

lemma dictify_loop_keys:
  "dictify_loop data i fs acc = Inr d \<Longrightarrow> set (keys d) \<subseteq> set (keys acc) \<union> set fs"
proof (induction fs arbitrary: i acc)
  case Nil
  then show ?case by simp
next
  case (Cons key rest)
  from Cons.prems have ok: "i < length data" "hashable key"
    and rec: "dictify_loop data (Suc i) rest (setitem acc key (data ! i)) = Inr d"
    by (auto split: if_splits)
  from Cons.IH [OF rec] keys_setitem [of acc key "data ! i"] show ?case by auto
qed

lemma dictify_loop_length:
  "dictify_loop data i fs acc = Inr d \<Longrightarrow> i \<le> length data \<Longrightarrow> i + length fs \<le> length data"
proof (induction fs arbitrary: i acc)
  case Nil
  then show ?case by simp
next
  case (Cons key rest)
  from Cons.prems have ok: "i < length data"
    and rec: "dictify_loop data (Suc i) rest (setitem acc key (data ! i)) = Inr d"
    by (auto split: if_splits)
  from Cons.IH [OF rec] ok show ?case by simp
qed

lemma dictify_keys: "dictify data fs = Inr d \<Longrightarrow> set (keys d) \<subseteq> set fs"
  using dictify_loop_keys [of data 0 fs "[]" d] by (simp add: dictify_def keys_def)

lemma dictify_length: "dictify data fs = Inr d \<Longrightarrow> length fs \<le> length data"
  using dictify_loop_length [of data 0 fs "[]" d] by (simp add: dictify_def)

lemma first_columns_singletons: "first_columns (map (\<lambda>c. [c]) cols) = Inr cols"
  by (induction cols) auto

lemma str_replace_char:
  "str_replace s [a] [b] = map (\<lambda>c. if c = a then b else c) s"
proof (induction s)
  case Nil
  show ?case by (simp add: str_replace.simps)
next
  case (Cons c s)
  then show ?case by (subst str_replace.simps) simp
qed

lemma dictify_entries_member:
  "dictify_entries data fs = Inr ds \<Longrightarrow> d \<in> set ds \<Longrightarrow>
     \<exists>entry \<in> set data. dictify (drop 1 entry) fs = Inr d"
  by (induction data arbitrary: ds) (auto split: sum.splits)

lemma get_table_fields_answer:
  assumes "run_statement drv (calls w) (table_fields_sql t) None = Inr (Some (map (\<lambda>c. [c]) cols))"
  shows "fst (get_table_fields drv t w) =
           Inr (if PStr ''server_id'' \<in> set cols then drop 1 cols else cols)"
  using assms
  by (simp add: get_table_fields_def cursor_execute_def cursor_fetchall_def
        first_columns_singletons)

lemma dictify_entries_uniform:
  "data \<noteq> [] \<Longrightarrow>
     (if length data > 1 then dictify_entries data fs
      else (case dictify (drop 1 (data ! 0)) fs of Inl e \<Rightarrow> Inl e | Inr d \<Rightarrow> Inr [d]))
     = dictify_entries data fs"
  by (cases data) (auto split: sum.splits)

lemma format_sql_data_uniform:
  assumes "pending w = Some data"
  shows "fst (format_sql_data drv t w) =
           (case fst (get_table_fields drv t (w\<lparr>pending := Some []\<rparr>)) of
              Inl e \<Rightarrow> Inl e
            | Inr fs \<Rightarrow> dictify_entries data fs)"
proof (cases "get_table_fields drv t (w\<lparr>pending := Some []\<rparr>)")
  case (Pair r w2)
  show ?thesis
  proof (cases r)
    case (Inl e)
    with Pair assms show ?thesis
      by (simp add: format_sql_data_def cursor_fetchall_def)
  next
    case (Inr fs)
    show ?thesis
    proof (cases "data = []")
      case True
      with Pair Inr assms show ?thesis
        by (simp add: format_sql_data_def cursor_fetchall_def)
    next
      case False
      from dictify_entries_uniform [OF False, of fs] Pair Inr assms False show ?thesis
        by (simp add: format_sql_data_def cursor_fetchall_def split: sum.splits if_splits)
    qed
  qed
qed

section \<open>Facts about the cursor, the statements and the bound values\<close>

lemma str_items_strings: "str_items (map PStr names) = Inr names"
  by (induction names) auto

lemma join_strings: "join sep (map PStr names) = Inr (intercalate sep names)"
  by (simp add: join_def str_items_strings)

lemma parenthesise_strings:
  "parenthesise (map PStr names) = Inr (''('' @ intercalate '', '' names @ '')'')"
  by (simp add: parenthesise_def join_strings)

lemma add_values_map:
  "add_values str_of d =
     map (\<lambda>val. if isinstance_dict val
                then PStr (map (\<lambda>c. if c = CHR 0x27 then CHR 0x22 else c) (str_of val))
                else val) (dict_values d)"
  by (induction d) (auto simp: dict_values_def str_replace_char)

lemma calls_cursor_execute:
  "calls (snd (cursor_execute drv sql params w)) = calls w @ [Execute sql params]"
  by (simp add: cursor_execute_def split: sum.splits)

lemma objs_cursor_execute: "objs (snd (cursor_execute drv sql params w)) = objs w"
  by (simp add: cursor_execute_def split: sum.splits)

lemma calls_conn_commit: "calls (snd (conn_commit drv w)) = calls w @ [Commit]"
  by (simp add: conn_commit_def split: option.splits)

lemma objs_conn_commit: "objs (snd (conn_commit drv w)) = objs w"
  by (simp add: conn_commit_def split: option.splits)

lemma calls_get_table_fields:
  "calls (snd (get_table_fields drv t w)) = calls w @ [Execute (table_fields_sql t) None]"
  by (auto simp: get_table_fields_def cursor_execute_def cursor_fetchall_def
        split: sum.splits option.splits prod.splits)

lemma calls_format_sql_data:
  "calls (snd (format_sql_data drv t w)) =
     (if pending w = None then calls w else calls w @ [Execute (table_fields_sql t) None])"
proof (cases "pending w")
  case None
  then show ?thesis by (simp add: format_sql_data_def cursor_fetchall_def)
next
  case (Some data)
  have "calls (snd (get_table_fields drv t (w\<lparr>pending := Some []\<rparr>)))
          = calls w @ [Execute (table_fields_sql t) None]"
    by (simp add: calls_get_table_fields)
  with Some show ?thesis
    by (auto simp: format_sql_data_def cursor_fetchall_def split: sum.splits prod.splits)
qed

lemma dictify_loop_total:
  "i + length fs \<le> length data \<Longrightarrow> \<forall>k \<in> set fs. hashable k \<Longrightarrow>
     \<exists>d. dictify_loop data i fs acc = Inr d"
  by (induction fs arbitrary: i acc) auto

lemma dictify_entries_total:
  "\<forall>entry \<in> set data. length fs < length entry \<Longrightarrow> \<forall>k \<in> set fs. hashable k \<Longrightarrow>
     \<exists>ds. dictify_entries data fs = Inr ds \<and> length ds = length data"
proof (induction data)
  case Nil
  then show ?case by simp
next
  case (Cons entry rest)
  from Cons.prems(1) have "length fs < length entry"
    by simp
  then have "0 + length fs \<le> length (drop 1 entry)"
    by simp
  from dictify_loop_total [OF this Cons.prems(2)]
  obtain d where "dictify (drop 1 entry) fs = Inr d"
    by (auto simp: dictify_def)
  moreover from Cons obtain ds where "dictify_entries rest fs = Inr ds" "length ds = length rest"
    by auto
  ultimately show ?case by simp
qed

lemma search_after_select:
  assumes "cursor_execute drv (search_sql t (get_check f cs) ex) (Some [v]) w = (Inr (), w1)"
    and "fst (format_sql_data drv t w1) = Inr results"
  shows "fst (search drv t f v cs ex all_results w) =
           Inr (if results = [] \<or> all_results then Rows results else Row (results ! 0))"
proof -
  from assms(2) obtain w2 where "format_sql_data drv t w1 = (Inr results, w2)"
    by (cases "format_sql_data drv t w1") simp
  with assms(1) show ?thesis
    by (simp add: search_def)
qed

text \<open>The definitions a concrete run unfolds.\<close>

lemmas example_defs =
  example_driver_def example_world_def teams_catalog_def notes_catalog_def teams_rows_def

lemmas handler_defs =
  search_def format_sql_data_def get_table_fields_def cursor_execute_def cursor_fetchall_def
  conn_commit_def update_many_def update_def add_def dictify_def search_sql_def
  table_fields_sql_def update_sql_def insert_sql_def get_check_def newline_def indent_def
  key_eq_def keys_def dict_values_def join_def parenthesise_def

section \<open>The claims\<close>

text \<open>
  Claim C1. With \<open>all_results\<close> false, \<open>_search\<close> returns the first dictionary of the list
  that the same call with \<open>all_results\<close> true returns, and the empty list when that list is
  empty. The call with \<open>all_results\<close> true always returns the list; both calls leave the
  same state behind, and one raises exactly when the other does, with the same exception.
\<close>

theorem search_first_of_all:
  "snd (search drv t f v cs ex False w) = snd (search drv t f v cs ex True w)
   \<and> (case fst (search drv t f v cs ex True w) of
        Inl e \<Rightarrow> fst (search drv t f v cs ex False w) = Inl e
      | Inr (Rows rs) \<Rightarrow>
          fst (search drv t f v cs ex False w) = Inr (if rs = [] then Rows [] else Row (rs ! 0))
      | Inr (Row d) \<Rightarrow> False)"
  by (auto simp: search_def split: prod.splits sum.splits found.splits)

text \<open>A run on the example database.\<close>

theorem search_first_of_all_witness:
  "fst (search example_driver ''teams'' ''server_id'' (PInt 7) True [] True example_world)
     = Inr (Rows [[(PStr ''server_id'', PInt 7), (PStr ''team_name'', PStr ''alpha''),
                   (PStr ''channels'', PList [PInt 11])],
                  [(PStr ''server_id'', PInt 7), (PStr ''team_name'', PStr ''beta''),
                   (PStr ''channels'', PList [])]])
   \<and> fst (search example_driver ''teams'' ''server_id'' (PInt 7) True [] False example_world)
     = Inr (Row [(PStr ''server_id'', PInt 7), (PStr ''team_name'', PStr ''alpha''),
                 (PStr ''channels'', PList [PInt 11])])
   \<and> fst (search example_driver ''teams'' ''server_id'' (PInt 8) True [] True example_world)
     = Inr (Rows [])
   \<and> fst (search example_driver ''teams'' ''server_id'' (PInt 8) True [] False example_world)
     = Inr (Rows [])"
proof -
  have all7: "fst (search example_driver ''teams'' ''server_id'' (PInt 7) True [] True example_world)
     = Inr (Rows [[(PStr ''server_id'', PInt 7), (PStr ''team_name'', PStr ''alpha''),
                   (PStr ''channels'', PList [PInt 11])],
                  [(PStr ''server_id'', PInt 7), (PStr ''team_name'', PStr ''beta''),
                   (PStr ''channels'', PList [])]])"
    by (simp add: handler_defs example_defs)
  have all8: "fst (search example_driver ''teams'' ''server_id'' (PInt 8) True [] True example_world)
     = Inr (Rows [])"
    by (simp add: handler_defs example_defs)
  from all7 all8
    search_first_of_all [of example_driver "''teams''" "''server_id''" "PInt 7" True "[]" example_world]
    search_first_of_all [of example_driver "''teams''" "''server_id''" "PInt 8" True "[]" example_world]
  show ?thesis
    by simp
qed

text \<open>
  Claim C2. For a table whose columns are distinct names beginning with an identifier
  column, and rows as wide as the table, no dictionary that \<open>_format_sql_data\<close> returns has
  the identifier column as a key: each dictionary is \<open>dictify\<close> of a fetched row without its
  leading value and the column names without the identifier. When the table has a
  \<open>server_id\<close> column the call does return, one dictionary for each row.
\<close>

theorem format_sql_data_no_identifier_key:
  assumes pend: "pending w = Some data"
    and cat: "run_statement drv (calls w) (table_fields_sql table_name) None
                = Inr (Some (map (\<lambda>c. [PStr c]) (ident # cols)))"
    and dist: "distinct (ident # cols)"
    and width: "\<forall>entry \<in> set data. length entry = length (ident # cols)"
  shows "(\<forall>dicts. fst (format_sql_data drv table_name w) = Inr dicts \<longrightarrow>
            (\<forall>d \<in> set dicts. PStr ident \<notin> set (keys d)
               \<and> (\<exists>entry \<in> set data. dictify (drop 1 entry) (map PStr cols) = Inr d)))
       \<and> (''server_id'' \<in> set (ident # cols) \<longrightarrow>
            (\<exists>dicts. fst (format_sql_data drv table_name w) = Inr dicts
               \<and> length dicts = length data))"
proof -
  let ?names = "map PStr (ident # cols)"
  let ?fs = "if PStr ''server_id'' \<in> set ?names then drop 1 ?names else ?names"
  have "run_statement drv (calls (w\<lparr>pending := Some []\<rparr>)) (table_fields_sql table_name) None
          = Inr (Some (map (\<lambda>c. [c]) ?names))"
    using cat by (simp add: comp_def)
  then have "fst (get_table_fields drv table_name (w\<lparr>pending := Some []\<rparr>)) = Inr ?fs"
    by (rule get_table_fields_answer)
  with pend have fmt: "fst (format_sql_data drv table_name w) = dictify_entries data ?fs"
    by (simp add: format_sql_data_uniform)
  have part1: "PStr ident \<notin> set (keys d)
               \<and> (\<exists>entry \<in> set data. dictify (drop 1 entry) (map PStr cols) = Inr d)"
    if res: "fst (format_sql_data drv table_name w) = Inr dicts" and mem: "d \<in> set dicts"
    for dicts d
  proof -
    from res fmt have "dictify_entries data ?fs = Inr dicts"
      by simp
    from dictify_entries_member [OF this mem]
    obtain entry where entry: "entry \<in> set data" and dfy: "dictify (drop 1 entry) ?fs = Inr d"
      by blast
    from dictify_length [OF dfy] width entry have "length ?fs \<le> length cols"
      by simp
    then have trimmed: "?fs = map PStr cols"
      by (simp split: if_splits)
    with dictify_keys [OF dfy] have "set (keys d) \<subseteq> PStr ` set cols"
      by simp
    with dist have nokey: "PStr ident \<notin> set (keys d)"
      by auto
    from dfy have "dictify (drop 1 entry) (map PStr cols) = Inr d"
      by (simp only: trimmed)
    with entry nokey show ?thesis
      by blast
  qed
  have part2: "\<exists>dicts. fst (format_sql_data drv table_name w) = Inr dicts
                 \<and> length dicts = length data"
    if sid: "''server_id'' \<in> set (ident # cols)"
  proof -
    from sid have "PStr ''server_id'' \<in> set ?names"
      by (simp only: set_map) (rule imageI)
    then have trimmed: "?fs = map PStr cols"
      by simp
    have "\<forall>entry \<in> set data. length (map PStr cols) < length entry"
      using width by simp
    moreover have "\<forall>k \<in> set (map PStr cols). hashable k"
      by auto
    ultimately show ?thesis
      using dictify_entries_total [of data "map PStr cols"] fmt trimmed by simp
  qed
  from part1 part2 show ?thesis
    by blast
qed

text \<open>A run on the example database.\<close>

theorem format_sql_data_no_identifier_key_witness:
  "pending (example_world\<lparr>pending := Some teams_rows\<rparr>) = Some teams_rows
   \<and> run_statement example_driver (calls (example_world\<lparr>pending := Some teams_rows\<rparr>))
        (table_fields_sql ''teams'') None
     = Inr (Some (map (\<lambda>c. [PStr c]) [''id'', ''server_id'', ''team_name'', ''channels'']))
   \<and> distinct [''id'', ''server_id'', ''team_name'', ''channels'']
   \<and> list_all (\<lambda>entry. length entry = length [''id'', ''server_id'', ''team_name'', ''channels''])
        teams_rows
   \<and> fst (format_sql_data example_driver ''teams'' (example_world\<lparr>pending := Some teams_rows\<rparr>))
     = Inr [[(PStr ''server_id'', PInt 7), (PStr ''team_name'', PStr ''alpha''),
             (PStr ''channels'', PList [PInt 11])],
            [(PStr ''server_id'', PInt 7), (PStr ''team_name'', PStr ''beta''),
             (PStr ''channels'', PList [])]]
   \<and> list_all (\<lambda>d. PStr ''id'' \<notin> set (keys d))
        [[(PStr ''server_id'', PInt 7), (PStr ''team_name'', PStr ''alpha''),
          (PStr ''channels'', PList [PInt 11])],
         [(PStr ''server_id'', PInt 7), (PStr ''team_name'', PStr ''beta''),
          (PStr ''channels'', PList [])]]"
proof -
  let ?w = "example_world\<lparr>pending := Some teams_rows\<rparr>"
  have h1: "pending ?w = Some teams_rows"
    by simp
  have h2: "run_statement example_driver (calls ?w) (table_fields_sql ''teams'') None
     = Inr (Some (map (\<lambda>c. [PStr c]) (''id'' # [''server_id'', ''team_name'', ''channels''])))"
    by (simp add: example_defs)
  have h3: "distinct (''id'' # [''server_id'', ''team_name'', ''channels''])"
    by simp
  have h4: "\<forall>entry \<in> set teams_rows.
              length entry = length (''id'' # [''server_id'', ''team_name'', ''channels''])"
    by (simp add: teams_rows_def)
  have run: "fst (format_sql_data example_driver ''teams'' ?w)
     = Inr [[(PStr ''server_id'', PInt 7), (PStr ''team_name'', PStr ''alpha''),
             (PStr ''channels'', PList [PInt 11])],
            [(PStr ''server_id'', PInt 7), (PStr ''team_name'', PStr ''beta''),
             (PStr ''channels'', PList [])]]"
    by (simp add: handler_defs example_defs)
  from format_sql_data_no_identifier_key [OF h1 h2 h3 h4] run
  have "\<forall>d \<in> set [[(PStr ''server_id'', PInt 7), (PStr ''team_name'', PStr ''alpha''),
                   (PStr ''channels'', PList [PInt 11])],
                  [(PStr ''server_id'', PInt 7), (PStr ''team_name'', PStr ''beta''),
                   (PStr ''channels'', PList [])]].
         PStr ''id'' \<notin> set (keys d)"
    by blast
  with h1 h2 h3 h4 run show ?thesis
    by (simp add: list_all_iff)
qed

text \<open>
  Claim C3, as the specification words it, fails: \<open>_get_table_fields\<close> drops the first entry
  of the list exactly when \<open>'server_id'\<close> occurs anywhere in it. On the columns
  \<open>id, server_id, team_name, channels\<close> it drops \<open>id\<close>, although the first entry is not
  \<open>server_id\<close>; on the columns \<open>id, body\<close> it drops nothing, although the first entry is the
  leading identifier \<open>id\<close>.
\<close>

theorem get_table_fields_not_as_specified:
  "fst (get_table_fields example_driver ''teams'' example_world)
     = Inr [PStr ''server_id'', PStr ''team_name'', PStr ''channels'']
   \<and> fst (get_table_fields example_driver ''teams'' example_world)
     \<noteq> Inr (specified_table_fields (PStr ''server_id'')
             [PStr ''id'', PStr ''server_id'', PStr ''team_name'', PStr ''channels''])
   \<and> fst (get_table_fields example_driver ''notes'' example_world)
     = Inr [PStr ''id'', PStr ''body'']
   \<and> fst (get_table_fields example_driver ''notes'' example_world)
     \<noteq> Inr (specified_table_fields (PStr ''id'') [PStr ''id'', PStr ''body''])"
  by (simp add: get_table_fields_def cursor_execute_def cursor_fetchall_def
        example_driver_def example_world_def teams_catalog_def notes_catalog_def
        table_fields_sql_def specified_table_fields_def)

text \<open>
  Claim C3, amended: when the catalog answers with one-column rows, \<open>_get_table_fields\<close>
  returns the catalog-order list of column names with its first entry dropped if
  \<open>'server_id'\<close> occurs anywhere in the list, and the list unchanged otherwise.
\<close>

theorem get_table_fields_drops_on_membership:
  assumes "run_statement drv (calls w) (table_fields_sql table_name) None
             = Inr (Some (map (\<lambda>c. [c]) cols))"
  shows "fst (get_table_fields drv table_name w) =
           Inr (if PStr ''server_id'' \<in> set cols then drop 1 cols else cols)"
  using assms by (rule get_table_fields_answer)

text \<open>A run on the example database.\<close>

theorem get_table_fields_drops_on_membership_witness:
  "run_statement example_driver (calls example_world) (table_fields_sql ''teams'') None
     = Inr (Some (map (\<lambda>c. [c])
         [PStr ''id'', PStr ''server_id'', PStr ''team_name'', PStr ''channels'']))
   \<and> fst (get_table_fields example_driver ''teams'' example_world)
     = Inr [PStr ''server_id'', PStr ''team_name'', PStr ''channels'']"
proof -
  have h: "run_statement example_driver (calls example_world) (table_fields_sql ''teams'') None
     = Inr (Some (map (\<lambda>c. [c])
         [PStr ''id'', PStr ''server_id'', PStr ''team_name'', PStr ''channels'']))"
    by (simp add: example_defs)
  from h get_table_fields_drops_on_membership [OF h] show ?thesis
    by simp
qed

text \<open>
  Claim C4. When the keys of \<open>updates\<close> are strings, the statement that \<open>_update_many\<close>
  executes is \<open>UPDATE <table>\<close>, then the keys joined with \<open>" AND "\<close>, then the condition
  and the extra query, each on a line of its own: there is no \<open>SET\<close> and no assignment
  between the table name and the condition. The bound parameters are the values of
  \<open>updates\<close> followed by the check value.
\<close>

theorem update_many_statement:
  assumes "keys updates = map PStr names"
  shows "\<exists>rest. calls (snd (update_many drv t cf cv updates cs ex w)) =
           calls w @ Execute (newline @ indent @ ''UPDATE '' @ t
                              @ newline @ indent @ intercalate '' AND '' names
                              @ newline @ indent @ get_check cf cs @ '' '' @ ex
                              @ newline @ indent)
                             (Some (dict_values updates @ [cv])) # rest"
proof -
  let ?sql = "update_sql t (intercalate '' AND '' names) (get_check cf cs) ex"
  let ?ps = "Some (dict_values updates @ [cv])"
  obtain r1 w1 where ex1: "cursor_execute drv ?sql ?ps w = (r1, w1)"
    by (cases "cursor_execute drv ?sql ?ps w")
  have c1: "calls w1 = calls w @ [Execute ?sql ?ps]"
    using calls_cursor_execute [of drv ?sql ?ps w] ex1 by simp
  have "calls (snd (update_many drv t cf cv updates cs ex w)) = calls w1
        \<or> calls (snd (update_many drv t cf cv updates cs ex w)) = calls w1 @ [Commit]"
    using assms ex1 calls_conn_commit [of drv w1]
    by (cases r1) (simp_all add: update_many_def join_strings)
  with c1 show ?thesis
    by (auto simp: update_sql_def)
qed

text \<open>A run on the example database.\<close>

theorem update_many_statement_witness:
  "keys [(PStr ''prefix'', PStr ''!''), (PStr ''log_channel'', PInt 5)]
     = map PStr [''prefix'', ''log_channel'']
   \<and> (\<exists>rest. calls (snd (update_many example_driver ''teams'' ''team_name'' (PStr ''alpha'')
                  [(PStr ''prefix'', PStr ''!''), (PStr ''log_channel'', PInt 5)] True
                  ''AND server_id = 7'' example_world))
       = Execute (newline @ indent @ ''UPDATE teams''
                  @ newline @ indent @ ''prefix AND log_channel''
                  @ newline @ indent @ ''WHERE team_name = %s AND server_id = 7''
                  @ newline @ indent)
                 (Some [PStr ''!'', PInt 5, PStr ''alpha'']) # rest)"
proof -
  have h: "keys [(PStr ''prefix'', PStr ''!''), (PStr ''log_channel'', PInt 5)]
             = map PStr [''prefix'', ''log_channel'']"
    by (simp add: keys_def)
  from h update_many_statement [OF h, of example_driver "''teams''" "''team_name''"
         "PStr ''alpha''" True "''AND server_id = 7''" example_world]
  show ?thesis
    by (simp add: example_world_def get_check_def dict_values_def)
qed

text \<open>
  Claim C5. \<open>_update\<close> returns what \<open>_update_many\<close> returns on the dict whose single
  entry is \<open>update_field: update_value\<close>, with the same remaining arguments, and leaves the
  same state behind.
\<close>

theorem update_is_update_many_of_one_entry:
  "update drv t cf cv uf uv cs ex w =
     update_many drv t cf cv (setitem [] (PStr uf) uv) cs ex w"
  by (simp add: update_def)

text \<open>A run on the example database.\<close>

theorem update_is_update_many_of_one_entry_witness:
  "calls (snd (update example_driver ''teams'' ''team_name'' (PStr ''alpha'') ''prefix''
                 (PStr ''!'') True ''AND server_id = 7'' example_world))
     = calls (snd (update_many example_driver ''teams'' ''team_name'' (PStr ''alpha'')
                 [(PStr ''prefix'', PStr ''!'')] True ''AND server_id = 7'' example_world))"
  using update_is_update_many_of_one_entry [of example_driver "''teams''" "''team_name''"
          "PStr ''alpha''" "''prefix''" "PStr ''!''" True "''AND server_id = 7''" example_world]
  by simp

text \<open>
  Claim C6. The parameters that \<open>_add\<close> binds are the values of the mapping, after
  \<open>server_id\<close> has been stored in it, in the mapping's order: a value that is a dict is
  bound as the string \<open>str\<close> gives for it with every single quote turned into a double
  quote and every other character kept in its place; any other value is bound as it is.
  (The keys are strings here: with another key the join of the field names raises
  before anything is executed.)
\<close>

theorem add_binds_dicts_as_quoted_text:
  assumes "keys (setitem (objs w gv) (PStr ''server_id'') (PInt gid)) = map PStr names"
  shows "\<exists>text rest. calls (snd (add str_of drv t gid gv w)) =
           calls w @ Execute text
             (Some (map (\<lambda>val. if isinstance_dict val
                              then PStr (map (\<lambda>c. if c = CHR 0x27 then CHR 0x22 else c) (str_of val))
                              else val)
                        (dict_values (setitem (objs w gv) (PStr ''server_id'') (PInt gid))))) # rest"
proof -
  let ?d = "setitem (objs w gv) (PStr ''server_id'') (PInt gid)"
  let ?w0 = "w\<lparr>objs := (objs w)(gv := ?d)\<rparr>"
  let ?vals = "add_values str_of ?d"
  let ?sql = "insert_sql t (''('' @ intercalate '', '' names @ '')'')
                (''('' @ intercalate '', '' (map (\<lambda>key. ''%s'') ?vals) @ '')'')"
  have blanks: "parenthesise (map (\<lambda>key. PStr ''%s'') ?vals)
                  = Inr (''('' @ intercalate '', '' (map (\<lambda>key. ''%s'') ?vals) @ '')'')"
    using parenthesise_strings [of "map (\<lambda>key. ''%s'') ?vals"] by (simp add: comp_def)
  obtain r1 w1 where ex1: "cursor_execute drv ?sql (Some ?vals) ?w0 = (r1, w1)"
    by (cases "cursor_execute drv ?sql (Some ?vals) ?w0")
  have c1: "calls w1 = calls w @ [Execute ?sql (Some ?vals)]"
    using calls_cursor_execute [of drv ?sql "Some ?vals" ?w0] ex1 by simp
  have "calls (snd (add str_of drv t gid gv w)) = calls w1
        \<or> calls (snd (add str_of drv t gid gv w)) = calls w1 @ [Commit]"
    using assms ex1 blanks calls_conn_commit [of drv w1]
    by (cases r1) (simp_all add: add_def Let_def parenthesise_strings)
  with c1 show ?thesis
    by (auto simp: add_values_map)
qed

text \<open>A run on the example database.\<close>

theorem add_binds_dicts_as_quoted_text_witness:
  "keys (setitem (objs example_world 0) (PStr ''server_id'') (PInt 7))
     = map PStr [''name'', ''availability'', ''server_id'']
   \<and> (\<exists>text rest. calls (snd (add py_str example_driver ''player_data'' 7 0 example_world))
        = Execute text
            (Some [PStr ''ann'',
                   PStr (''{'' @ [CHR 0x22] @ ''Monday'' @ [CHR 0x22] @ '': ''
                         @ [CHR 0x22] @ ''Yes'' @ [CHR 0x22] @ ''}''),
                   PInt 7]) # rest)"
proof -
  have h: "keys (setitem (objs example_world 0) (PStr ''server_id'') (PInt 7))
             = map PStr [''name'', ''availability'', ''server_id'']"
    by (simp add: example_world_def keys_def key_eq_def)
  from h add_binds_dicts_as_quoted_text [OF h, of py_str example_driver "''player_data''"]
  show ?thesis
    by (simp add: example_world_def key_eq_def dict_values_def str_repr_def escape_char_def
          Let_def)
qed

text \<open>
  Claim C7. The first statement every call of \<open>_search\<close> executes is
  \<open>SELECT * FROM <table>\<close>, then on the next line the condition, a space and the extra
  query as it was given. The condition compares the field with the placeholder, both
  wrapped in \<open>LOWER()\<close> unless the search is case-sensitive. The search value is the only
  bound parameter; the one statement that may follow is the column-name lookup, which
  binds nothing.
\<close>

theorem search_statement:
  "\<exists>rest. calls (snd (search drv t f v cs ex ar w)) =
      calls w @ Execute (newline @ indent @ ''SELECT * FROM '' @ t
                         @ newline @ indent
                         @ (if cs then ''WHERE '' @ f @ '' = %s''
                            else ''WHERE LOWER('' @ f @ '') = LOWER(%s)'')
                         @ '' '' @ ex
                         @ newline @ indent) (Some [v]) # rest
      \<and> (rest = [] \<or> rest = [Execute (table_fields_sql t) None])"
proof -
  let ?sql = "search_sql t (get_check f cs) ex"
  obtain r1 w1 where ex1: "cursor_execute drv ?sql (Some [v]) w = (r1, w1)"
    by (cases "cursor_execute drv ?sql (Some [v]) w")
  have c1: "calls w1 = calls w @ [Execute ?sql (Some [v])]"
    using calls_cursor_execute [of drv ?sql "Some [v]" w] ex1 by simp
  have "calls (snd (search drv t f v cs ex ar w)) = calls w1
        \<or> calls (snd (search drv t f v cs ex ar w)) = calls w1 @ [Execute (table_fields_sql t) None]"
  proof (cases r1)
    case (Inl e)
    with ex1 show ?thesis by (simp add: search_def)
  next
    case (Inr u)
    obtain r2 w2 where f2: "format_sql_data drv t w1 = (r2, w2)"
      by (cases "format_sql_data drv t w1")
    have "calls (snd (search drv t f v cs ex ar w)) = calls w2"
      using ex1 Inr f2 by (simp add: search_def split: sum.splits)
    moreover have "calls w2 = calls w1 \<or> calls w2 = calls w1 @ [Execute (table_fields_sql t) None]"
      using calls_format_sql_data [of drv t w1] f2 by (simp split: if_splits)
    ultimately show ?thesis by simp
  qed
  with c1 show ?thesis
    by (auto simp: search_sql_def get_check_def)
qed

text \<open>A run on the example database.\<close>

theorem search_statement_witness:
  "calls (snd (search example_driver ''teams'' ''team_name'' (PStr ''Alpha'') False
                 ''AND server_id = 7'' False example_world))
     = [Execute (newline @ indent @ ''SELECT * FROM teams''
                 @ newline @ indent @ ''WHERE LOWER(team_name) = LOWER(%s) AND server_id = 7''
                 @ newline @ indent) (Some [PStr ''Alpha'']),
        Execute (table_fields_sql ''teams'') None]"
proof -
  have "calls (snd (search example_driver ''teams'' ''team_name'' (PStr ''Alpha'') False
                 ''AND server_id = 7'' False example_world)) \<noteq>
        calls example_world @ [Execute (newline @ indent @ ''SELECT * FROM '' @ ''teams''
                         @ newline @ indent
                         @ (if False then ''WHERE '' @ ''team_name'' @ '' = %s''
                            else ''WHERE LOWER('' @ ''team_name'' @ '') = LOWER(%s)'')
                         @ '' '' @ ''AND server_id = 7''
                         @ newline @ indent) (Some [PStr ''Alpha''])]"
    by (simp add: handler_defs example_defs)
  with search_statement [of example_driver "''teams''" "''team_name''" "PStr ''Alpha''" False
         "''AND server_id = 7''" False example_world]
  show ?thesis
    by (auto simp: example_world_def)
qed

text \<open>
  Claim C8. When the query of \<open>_search\<close> is answered with zero rows, \<open>_search\<close> returns the
  empty list and raises nothing; when no rows wait on the cursor, \<open>_format_sql_data\<close>
  returns the empty list and raises nothing. Both still look the column names up before
  they test for emptiness, so this is for a lookup that the driver answers.
\<close>

theorem no_rows_is_not_an_error:
  "(run_statement drv (calls w) (search_sql t (get_check f cs) ex) (Some [v]) = Inr (Some []) \<longrightarrow>
    fst (get_table_fields drv t
           (w\<lparr>calls := calls w @ [Execute (search_sql t (get_check f cs) ex) (Some [v])],
              pending := Some []\<rparr>)) = Inr field_names \<longrightarrow>
      fst (search drv t f v cs ex all_results w) = Inr (Rows [])
      \<and> (\<forall>e. fst (search drv t f v cs ex all_results w) \<noteq> Inl e))
   \<and> (pending w' = Some [] \<longrightarrow>
       fst (get_table_fields drv t w') = Inr field_names' \<longrightarrow>
         fst (format_sql_data drv t w') = Inr []
         \<and> (\<forall>e. fst (format_sql_data drv t w') \<noteq> Inl e))"
proof (intro conjI impI)
  let ?sql = "search_sql t (get_check f cs) ex"
  let ?w1 = "w\<lparr>calls := calls w @ [Execute ?sql (Some [v])], pending := Some []\<rparr>"
  assume sel: "run_statement drv (calls w) ?sql (Some [v]) = Inr (Some [])"
    and look: "fst (get_table_fields drv t ?w1) = Inr field_names"
  from sel have ex1: "cursor_execute drv ?sql (Some [v]) w = (Inr (), ?w1)"
    by (simp add: cursor_execute_def)
  have "?w1\<lparr>pending := Some []\<rparr> = ?w1"
    by simp
  with look have "fst (format_sql_data drv t ?w1) = Inr []"
    using format_sql_data_uniform [of ?w1 "[]" drv t] by simp
  from search_after_select [OF ex1 this]
  show r: "fst (search drv t f v cs ex all_results w) = Inr (Rows [])"
    by simp
  show "\<forall>e. fst (search drv t f v cs ex all_results w) \<noteq> Inl e"
    by (simp add: r)
next
  assume pend: "pending w' = Some []"
    and look: "fst (get_table_fields drv t w') = Inr field_names'"
  from pend have "w'\<lparr>pending := Some []\<rparr> = w'"
    by simp
  with look have "fst (get_table_fields drv t (w'\<lparr>pending := Some []\<rparr>)) = Inr field_names'"
    by (simp only:)
  with pend show r: "fst (format_sql_data drv t w') = Inr []"
    using format_sql_data_uniform [of w' "[]" drv t] by simp
  show "\<forall>e. fst (format_sql_data drv t w') \<noteq> Inl e"
    by (simp add: r)
qed

text \<open>A run on the example database.\<close>

theorem no_rows_is_not_an_error_witness:
  "run_statement example_driver (calls example_world)
      (search_sql ''teams'' (get_check ''server_id'' True) []) (Some [PInt 8]) = Inr (Some [])
   \<and> fst (get_table_fields example_driver ''teams''
        (example_world\<lparr>calls := calls example_world
             @ [Execute (search_sql ''teams'' (get_check ''server_id'' True) []) (Some [PInt 8])],
           pending := Some []\<rparr>))
      = Inr [PStr ''server_id'', PStr ''team_name'', PStr ''channels'']
   \<and> fst (search example_driver ''teams'' ''server_id'' (PInt 8) True [] False example_world)
      = Inr (Rows [])
   \<and> pending (example_world\<lparr>pending := Some []\<rparr>) = Some []
   \<and> fst (get_table_fields example_driver ''teams'' (example_world\<lparr>pending := Some []\<rparr>))
      = Inr [PStr ''server_id'', PStr ''team_name'', PStr ''channels'']
   \<and> fst (format_sql_data example_driver ''teams'' (example_world\<lparr>pending := Some []\<rparr>))
      = Inr []"
proof -
  let ?sql = "search_sql ''teams'' (get_check ''server_id'' True) []"
  have h1: "run_statement example_driver (calls example_world) ?sql (Some [PInt 8]) = Inr (Some [])"
    by (simp add: example_defs search_sql_def table_fields_sql_def newline_def indent_def)
  have h2: "fst (get_table_fields example_driver ''teams''
        (example_world\<lparr>calls := calls example_world @ [Execute ?sql (Some [PInt 8])],
           pending := Some []\<rparr>))
      = Inr [PStr ''server_id'', PStr ''team_name'', PStr ''channels'']"
    by (simp add: handler_defs example_defs)
  have h3: "pending (example_world\<lparr>pending := Some []\<rparr>) = Some []"
    by simp
  have h4: "fst (get_table_fields example_driver ''teams'' (example_world\<lparr>pending := Some []\<rparr>))
      = Inr [PStr ''server_id'', PStr ''team_name'', PStr ''channels'']"
    by (simp add: handler_defs example_defs)
  from h1 h2 h3 h4
    no_rows_is_not_an_error [of example_driver example_world "''teams''" "''server_id''" True "[]"
      "PInt 8" "[PStr ''server_id'', PStr ''team_name'', PStr ''channels'']" False
      "example_world\<lparr>pending := Some []\<rparr>"
      "[PStr ''server_id'', PStr ''team_name'', PStr ''channels'']"]
  show ?thesis
    by simp
qed

text \<open>
  Claim C9. Whatever else happens in the call, after \<open>_add\<close> the caller's dict object is
  the one it was with \<open>server_id\<close> stored in it, so it has the key \<open>server_id\<close> bound to
  the guild id; no other object is changed.
\<close>

theorem add_mutates_given_values:
  "objs (snd (add str_of drv t gid gv w)) gv
     = setitem (objs w gv) (PStr ''server_id'') (PInt gid)
   \<and> getitem (objs (snd (add str_of drv t gid gv w)) gv) (PStr ''server_id'') = Some (PInt gid)
   \<and> (\<forall>r. r \<noteq> gv \<longrightarrow> objs (snd (add str_of drv t gid gv w)) r = objs w r)"
proof -
  let ?w0 = "w\<lparr>objs := (objs w)(gv := setitem (objs w gv) (PStr ''server_id'') (PInt gid))\<rparr>"
  have "objs (snd (add str_of drv t gid gv w)) = objs ?w0"
  proof -
    have "\<And>sql ps. objs (snd (case cursor_execute drv sql ps ?w0 of
              (Inl e, w1) \<Rightarrow> (Inl e, w1) | (Inr u, w1) \<Rightarrow> conn_commit drv w1)) = objs ?w0"
    proof -
      fix sql ps
      obtain r1 w1 where ex1: "cursor_execute drv sql ps ?w0 = (r1, w1)"
        by (cases "cursor_execute drv sql ps ?w0")
      have "objs w1 = objs ?w0"
        using objs_cursor_execute [of drv sql ps ?w0] ex1 by simp
      with ex1 objs_conn_commit [of drv w1]
      show "objs (snd (case cursor_execute drv sql ps ?w0 of
              (Inl e, w1) \<Rightarrow> (Inl e, w1) | (Inr u, w1) \<Rightarrow> conn_commit drv w1)) = objs ?w0"
        by (cases r1) simp_all
    qed
    then show ?thesis
      by (simp add: add_def Let_def split: sum.splits)
  qed
  then show ?thesis
    by (simp add: getitem_setitem)
qed

text \<open>A run on the example database.\<close>

theorem add_mutates_given_values_witness:
  "objs (snd (add py_str example_driver ''player_data'' 7 0 example_world)) 0
     = [(PStr ''name'', PStr ''ann''),
        (PStr ''availability'', PDict [(PStr ''Monday'', PStr ''Yes'')]),
        (PStr ''server_id'', PInt 7)]
   \<and> (1::nat) \<noteq> 0
   \<and> objs (snd (add py_str example_driver ''player_data'' 7 0 example_world)) 1
     = objs example_world 1"
  using add_mutates_given_values [of py_str example_driver "''player_data''" 7 0 example_world]
  by (simp add: example_world_def key_eq_def)

text \<open>
  Claim C10. For every non-empty list of fetched rows, \<open>_format_sql_data\<close> returns what
  the list comprehension of its many-rows branch gives on that list,
  \<open>dictify(entry[1:], fields)\<close> for each row in order: the branch for a single row gives
  nothing else.
\<close>

theorem format_sql_data_branches_agree:
  assumes "pending w = Some data" and "data \<noteq> []"
  shows "fst (format_sql_data drv table_name w) =
           (case fst (get_table_fields drv table_name (w\<lparr>pending := Some []\<rparr>)) of
              Inl e \<Rightarrow> Inl e
            | Inr field_names \<Rightarrow> dictify_entries data field_names)"
  using assms(1) by (rule format_sql_data_uniform)

text \<open>A run on the example database.\<close>

theorem format_sql_data_branches_agree_witness:
  "pending (example_world\<lparr>pending := Some [[PInt 1, PInt 7, PStr ''alpha'', PList [PInt 11]]]\<rparr>)
     = Some [[PInt 1, PInt 7, PStr ''alpha'', PList [PInt 11]]]
   \<and> [[PInt 1, PInt 7, PStr ''alpha'', PList [PInt 11]]] \<noteq> []
   \<and> fst (format_sql_data example_driver ''teams''
        (example_world\<lparr>pending := Some [[PInt 1, PInt 7, PStr ''alpha'', PList [PInt 11]]]\<rparr>))
     = dictify_entries [[PInt 1, PInt 7, PStr ''alpha'', PList [PInt 11]]]
         [PStr ''server_id'', PStr ''team_name'', PStr ''channels'']"
proof -
  let ?data = "[[PInt 1, PInt 7, PStr ''alpha'', PList [PInt 11]]]"
  let ?w = "example_world\<lparr>pending := Some ?data\<rparr>"
  have p: "pending ?w = Some ?data" and n: "?data \<noteq> []"
    by simp_all
  have "fst (get_table_fields example_driver ''teams'' (?w\<lparr>pending := Some []\<rparr>))
          = Inr [PStr ''server_id'', PStr ''team_name'', PStr ''channels'']"
    by (simp add: handler_defs example_defs)
  with format_sql_data_branches_agree [OF p n, of example_driver "''teams''"] p n
  show ?thesis
    by simp
qed

end
